theory Spec2Isabelle
  imports Complex_Main "HOL-Library.Log_Nat" "HOL-Library.Sublist"
begin

section \<open>Characters and strings\<close>

text \<open>
  A Python \<open>str\<close> is modelled as a \<open>string\<close> whose characters are the code points
  below 256 (Latin-1), which is the range of \<open>char\<close>. The tables below are those of
  \<open>str.isspace\<close>, \<open>str.lower\<close> and of the classes \<open>\s\<close>, \<open>\d\<close>, \<open>\w\<close> of the
  \<open>re\<close> module on that range.
\<close>

definition ord :: "char \<Rightarrow> nat" where
  "ord c = of_char c"

definition isspace :: "char \<Rightarrow> bool" where
  "isspace c = (let n = ord c in (9 \<le> n \<and> n \<le> 13) \<or> (28 \<le> n \<and> n \<le> 32) \<or> n = 133 \<or> n = 160)"

definition isdigit :: "char \<Rightarrow> bool" where
  "isdigit c = (let n = ord c in 48 \<le> n \<and> n \<le> 57)"

definition isupper :: "char \<Rightarrow> bool" where
  "isupper c = (let n = ord c in (65 \<le> n \<and> n \<le> 90) \<or> (192 \<le> n \<and> n \<le> 222 \<and> n \<noteq> 215))"

definition islower :: "char \<Rightarrow> bool" where
  "islower c = (let n = ord c in (97 \<le> n \<and> n \<le> 122) \<or> (224 \<le> n \<and> n \<le> 254 \<and> n \<noteq> 247))"

definition lower_char :: "char \<Rightarrow> char" where
  "lower_char c = (if isupper c then char_of (ord c + 32) else c)"

definition upper_char :: "char \<Rightarrow> char" where
  "upper_char c = (if islower c then char_of (ord c - 32) else c)"

definition isword :: "char \<Rightarrow> bool" where
  "isword c =
     (let n = ord c
      in isdigit c \<or> isupper c \<or> islower c \<or> n = 95 \<or> n = 170 \<or> n = 178 \<or> n = 179 \<or>
         n = 181 \<or> n = 185 \<or> n = 186 \<or> n = 188 \<or> n = 189 \<or> n = 190 \<or> n = 223 \<or> n = 255)"

definition lower :: "string \<Rightarrow> string" where
  "lower s = map lower_char s"

definition strip :: "string \<Rightarrow> string" where
  "strip s = rev (dropWhile isspace (rev (dropWhile isspace s)))"

text \<open>\<open>s.replace(old, new)\<close> for a one-character \<open>old\<close>.\<close>

definition replace_char :: "char \<Rightarrow> string \<Rightarrow> string \<Rightarrow> string" where
  "replace_char old new s = concat (map (\<lambda>c. if c = old then new else [c]) s)"

section \<open>Floats\<close>

text \<open>
  A Python float is an IEEE binary64 value. A finite one is modelled by the rational it
  denotes; the two zeros are identified, as Python's \<open>==\<close> does. \<open>round_double\<close> rounds a
  rational to the nearest double, ties to even, with gradual underflow and overflow to
  infinity (a rounded magnitude of \<open>2 ^ 1024\<close> or more): it is what reading a decimal
  literal and what every arithmetic operation do.
\<close>

datatype pyfloat = Finite rat | PosInf | NegInf | NaN

definition pow2 :: "int \<Rightarrow> rat" where
  "pow2 e = (if 0 \<le> e then 2 ^ nat e else 1 / 2 ^ nat (- e))"

definition pow10 :: "int \<Rightarrow> rat" where
  "pow10 e = (if 0 \<le> e then 10 ^ nat e else 1 / 10 ^ nat (- e))"

definition round_half_even :: "rat \<Rightarrow> int" where
  "round_half_even x =
     (let f = \<lfloor>x\<rfloor>; d = x - of_int f
      in if d < 1 / 2 then f else if 1 / 2 < d then f + 1 else if even f then f else f + 1)"

text \<open>For \<open>q > 0\<close>, the \<open>e\<close> with \<open>2 ^ e \<le> q < 2 ^ (e + 1)\<close>.\<close>

definition binary_exponent :: "rat \<Rightarrow> int" where
  "binary_exponent q =
     (let (a, b) = quotient_of q; e = bitlen a - bitlen b
      in if pow2 e \<le> q then e else e - 1)"

definition round_double :: "rat \<Rightarrow> pyfloat" where
  "round_double q =
     (if q = 0 then Finite 0
      else let a = \<bar>q\<bar>;
               u = max (binary_exponent a - 52) (- 1074);
               r = of_int (round_half_even (a / pow2 u)) * pow2 u
           in if 1024 \<le> binary_exponent r then (if q < 0 then NegInf else PosInf)
              else Finite (if q < 0 then - r else r))"

fun fadd :: "pyfloat \<Rightarrow> pyfloat \<Rightarrow> pyfloat" where
  "fadd NaN _ = NaN"
| "fadd _ NaN = NaN"
| "fadd PosInf NegInf = NaN"
| "fadd NegInf PosInf = NaN"
| "fadd PosInf _ = PosInf"
| "fadd _ PosInf = PosInf"
| "fadd NegInf _ = NegInf"
| "fadd _ NegInf = NegInf"
| "fadd (Finite a) (Finite b) = round_double (a + b)"

subsection \<open>The built-in \<open>float(s)\<close> on a string\<close>

text \<open>
  The grammar of the language reference: surrounding whitespace is dropped, then
  \<open>[sign] (inf | infinity | nan | number [exponent])\<close> with
  \<open>number ::= [digitpart] "." digitpart | digitpart ["."]\<close>,
  \<open>digitpart ::= digit (["_"] digit)*\<close> and
  \<open>exponent ::= ("e" | "E") [sign] digitpart\<close>. \<open>None\<close> is \<open>ValueError\<close>.
\<close>

definition digit_val :: "char \<Rightarrow> int" where
  "digit_val c = of_char c - 48"

fun digits_tail :: "string \<Rightarrow> int list \<times> string" where
  "digits_tail [] = ([], [])"
| "digits_tail [c] = (if isdigit c then ([digit_val c], []) else ([], [c]))"
| "digits_tail (c # d # cs) =
     (if isdigit c then (case digits_tail (d # cs) of (ds, r) \<Rightarrow> (digit_val c # ds, r))
      else if c = CHR ''_'' \<and> isdigit d then
        (case digits_tail cs of (ds, r) \<Rightarrow> (digit_val d # ds, r))
      else ([], c # d # cs))"

definition digitpart :: "string \<Rightarrow> (int list \<times> string) option" where
  "digitpart s =
     (case s of
        [] \<Rightarrow> None
      | c # cs \<Rightarrow>
          if isdigit c then (case digits_tail cs of (ds, r) \<Rightarrow> Some (digit_val c # ds, r))
          else None)"

definition decimal :: "int list \<Rightarrow> int" where
  "decimal ds = foldl (\<lambda>a d. 10 * a + d) 0 ds"

definition sign_part :: "string \<Rightarrow> bool \<times> string" where
  "sign_part s =
     (case s of
        [] \<Rightarrow> (False, [])
      | c # cs \<Rightarrow>
          if c = CHR ''-'' then (True, cs) else if c = CHR ''+'' then (False, cs) else (False, s))"

definition number_part :: "string \<Rightarrow> (int list \<times> int list \<times> string) option" where
  "number_part s =
     (case digitpart s of
        Some (ip, r) \<Rightarrow>
          (case r of
             [] \<Rightarrow> Some (ip, [], [])
           | c # r' \<Rightarrow>
               if c = CHR ''.'' then
                 (case digitpart r' of
                    Some (fp, r'') \<Rightarrow> Some (ip, fp, r'')
                  | None \<Rightarrow> Some (ip, [], r'))
               else Some (ip, [], r))
      | None \<Rightarrow>
          (case s of
             [] \<Rightarrow> None
           | c # r' \<Rightarrow>
               if c = CHR ''.'' then
                 (case digitpart r' of
                    Some (fp, r'') \<Rightarrow> Some ([], fp, r'')
                  | None \<Rightarrow> None)
               else None))"

definition exponent_part :: "string \<Rightarrow> int option" where
  "exponent_part s =
     (case s of
        [] \<Rightarrow> Some 0
      | c # r \<Rightarrow>
          if c = CHR ''e'' \<or> c = CHR ''E'' then
            (case sign_part r of
               (neg, r') \<Rightarrow>
                 (case digitpart r' of
                    None \<Rightarrow> None
                  | Some (ds, rest) \<Rightarrow>
                      if rest = [] then Some (if neg then - decimal ds else decimal ds)
                      else None))
          else None)"

text \<open>
  The whitespace that \<open>float\<close> drops at both ends; unlike \<open>str.strip\<close>, it leaves the
  separators U+001C to U+001F in place.
\<close>

definition float_space :: "char \<Rightarrow> bool" where
  "float_space c = (let n = ord c in (9 \<le> n \<and> n \<le> 13) \<or> n = 32 \<or> n = 133 \<or> n = 160)"

definition float_strip :: "string \<Rightarrow> string" where
  "float_strip s = rev (dropWhile float_space (rev (dropWhile float_space s)))"

definition py_float :: "string \<Rightarrow> pyfloat option" where
  "py_float s0 =
     (case sign_part (float_strip s0) of
        (neg, s) \<Rightarrow>
          if lower s = ''inf'' \<or> lower s = ''infinity'' then Some (if neg then NegInf else PosInf)
          else if lower s = ''nan'' then Some NaN
          else
            (case number_part s of
               None \<Rightarrow> None
             | Some (ip, fp, r) \<Rightarrow>
                 (case exponent_part r of
                    None \<Rightarrow> None
                  | Some e \<Rightarrow>
                      Some (round_double ((if neg then - 1 else 1) * of_int (decimal (ip @ fp))
                                          * pow10 (e - int (length fp)))))))"

section \<open>\<open>normalize_number\<close>\<close>

text \<open>The function returns a float, or the string it tried to convert.\<close>

datatype normalized = Float pyfloat | Str string

definition normalize_number :: "string \<Rightarrow> normalized" where
  "normalize_number num_str =
     (let s1 = replace_char CHR '' '' [] num_str;
          s2 = (if CHR '','' \<in> set s1 \<and> CHR ''.'' \<in> set s1 then replace_char CHR '','' [] s1
                else if CHR '','' \<in> set s1 then replace_char CHR '','' ''.'' s1
                else s1)
      in case py_float s2 of Some x \<Rightarrow> Float x | None \<Rightarrow> Str s2)"

section \<open>\<open>final_dict\<close>\<close>

text \<open>
  A Python object, as far as the aggregation looks at it: \<open>None\<close>, a string, or any
  other object, given by the text \<open>str()\<close> makes of it. A result is a dict from field
  names to objects, and \<open>d.get(k)\<close> is \<open>None\<close> on a missing field.
\<close>

datatype pyobj = PyNone | PyStr string | PyObj string

fun py_str :: "pyobj \<Rightarrow> string" where
  "py_str PyNone = ''None''"
| "py_str (PyStr s) = s"
| "py_str (PyObj s) = s"

type_synonym result = "string \<rightharpoonup> pyobj"

definition dict_get :: "result \<Rightarrow> string \<Rightarrow> pyobj" where
  "dict_get d k = (case d k of None \<Rightarrow> PyNone | Some v \<Rightarrow> v)"

text \<open>
  The two dicts of the function. \<open>string_values\<close> holds sets; the final
  \<open>{k: list(v)}\<close> lists each set in an order the language leaves open, so the model keeps
  the set.
\<close>

type_synonym summed = "pyobj \<rightharpoonup> pyfloat"
type_synonym collected = "pyobj \<rightharpoonup> string set"

definition final_dict_step :: "summed \<times> collected \<Rightarrow> result \<Rightarrow> summed \<times> collected" where
  "final_dict_step acc result =
     (case acc of
        (summed_values, string_values) \<Rightarrow>
          let key = dict_get result ''Key''; val = dict_get result ''Value''
          in if key = PyNone \<or> val = PyNone then acc
             else
               (case normalize_number (py_str val) of
                  Float x \<Rightarrow>
                    (summed_values
                       (key \<mapsto> fadd (case summed_values key of None \<Rightarrow> Finite 0 | Some t \<Rightarrow> t) x),
                     string_values)
                | Str s \<Rightarrow>
                    (summed_values,
                     string_values
                       (key \<mapsto> insert s (case string_values key of None \<Rightarrow> {} | Some S \<Rightarrow> S)))))"

definition final_dict :: "result list \<Rightarrow> summed \<times> collected" where
  "final_dict results = foldl final_dict_step (Map.empty, Map.empty) results"

text \<open>
  What the specification says of the aggregation: the normalized values recorded under a
  key, in the order of the results, numeric ones and the others.
\<close>

definition contributes :: "pyobj \<Rightarrow> result \<Rightarrow> bool" where
  "contributes k r = (dict_get r ''Key'' = k \<and> k \<noteq> PyNone \<and> dict_get r ''Value'' \<noteq> PyNone)"

definition numbers_of :: "pyobj \<Rightarrow> result list \<Rightarrow> pyfloat list" where
  "numbers_of k rs =
     concat (map (\<lambda>r. case normalize_number (py_str (dict_get r ''Value'')) of
                         Float x \<Rightarrow> [x] | Str s \<Rightarrow> [])
                 (filter (contributes k) rs))"

definition texts_of :: "pyobj \<Rightarrow> result list \<Rightarrow> string list" where
  "texts_of k rs =
     concat (map (\<lambda>r. case normalize_number (py_str (dict_get r ''Value'')) of
                         Float x \<Rightarrow> [] | Str s \<Rightarrow> [s])
                 (filter (contributes k) rs))"

definition example_results :: "result list" where
  "example_results =
     [[''Key'' \<mapsto> PyStr ''total'', ''Value'' \<mapsto> PyStr ''100''],
      [''Key'' \<mapsto> PyStr ''total'', ''Value'' \<mapsto> PyStr ''50,5''],
      [''Key'' \<mapsto> PyStr ''total'', ''Value'' \<mapsto> PyStr ''n/a'']]"

section \<open>Regular expressions\<close>

text \<open>
  The patterns of the \<open>re\<close> module that the program uses, as syntax trees, and a
  backtracking matcher for them. A repetition is greedy; \<open>Rep m None\<close> is \<open>{m,}\<close> and
  \<open>Rep m (Some n)\<close> is \<open>{m,n}\<close>, so \<open>*\<close>, \<open>+\<close> and \<open>?\<close> are \<open>Rep 0 None\<close>,
  \<open>Rep 1 None\<close> and \<open>Rep 0 (Some 1)\<close>. Capturing groups are numbered by their opening
  parenthesis, from 1.
\<close>

datatype citem = CChar char | CRange char char | CSpace | CDigit | CWord

datatype rx =
    Lit char
  | Dot
  | Cls "citem list"
  | NCls "citem list"
  | Cat rx rx
  | Alt rx rx
  | Rep nat "nat option" rx
  | Grp rx
  | WordB
  | Eps

record flags =
  ignorecase :: bool
  dotall :: bool

definition no_flags :: flags where
  "no_flags = \<lparr>ignorecase = False, dotall = False\<rparr>"

definition flags_I :: flags where
  "flags_I = \<lparr>ignorecase = True, dotall = False\<rparr>"

definition flags_IS :: flags where
  "flags_IS = \<lparr>ignorecase = True, dotall = True\<rparr>"

abbreviation Star :: "rx \<Rightarrow> rx" where
  "Star r \<equiv> Rep 0 None r"

abbreviation Plus :: "rx \<Rightarrow> rx" where
  "Plus r \<equiv> Rep 1 None r"

abbreviation Opt :: "rx \<Rightarrow> rx" where
  "Opt r \<equiv> Rep 0 (Some 1) r"

definition Seq :: "rx list \<Rightarrow> rx" where
  "Seq rs = foldr Cat rs Eps"

text \<open>\<open>re.escape(s)\<close> is a pattern that matches the characters of \<open>s\<close> literally.\<close>

definition re_escape :: "string \<Rightarrow> rx" where
  "re_escape s = Seq (map Lit s)"

definition in_range :: "char \<Rightarrow> char \<Rightarrow> char \<Rightarrow> bool" where
  "in_range lo hi c = (ord lo \<le> ord c \<and> ord c \<le> ord hi)"

definition lit_match :: "flags \<Rightarrow> char \<Rightarrow> char \<Rightarrow> bool" where
  "lit_match fl d c = (if ignorecase fl then lower_char c = lower_char d else c = d)"

fun citem_match :: "flags \<Rightarrow> citem \<Rightarrow> char \<Rightarrow> bool" where
  "citem_match fl (CChar d) c = lit_match fl d c"
| "citem_match fl (CRange lo hi) c =
     (if ignorecase fl
      then in_range lo hi (lower_char c) \<or> in_range lo hi (upper_char (lower_char c))
      else in_range lo hi c)"
| "citem_match fl CSpace c = isspace c"
| "citem_match fl CDigit c = isdigit c"
| "citem_match fl CWord c = isword c"

text \<open>
  A matcher state is the position reached in the text and the spans of the groups
  closed so far, the latest first. \<open>ms r g fl s st\<close> lists the states in which a match
  of \<open>r\<close> begun in \<open>st\<close> can end, in the order in which the backtracking matcher tries
  them; \<open>g\<close> is the number of the first group of \<open>r\<close>.
\<close>

type_synonym mstate = "nat \<times> (nat \<times> nat \<times> nat) list"

primrec ngroups :: "rx \<Rightarrow> nat" where
  "ngroups (Lit d) = 0"
| "ngroups Dot = 0"
| "ngroups (Cls its) = 0"
| "ngroups (NCls its) = 0"
| "ngroups (Cat r1 r2) = ngroups r1 + ngroups r2"
| "ngroups (Alt r1 r2) = ngroups r1 + ngroups r2"
| "ngroups (Rep lo hi r) = ngroups r"
| "ngroups (Grp r) = Suc (ngroups r)"
| "ngroups WordB = 0"
| "ngroups Eps = 0"

definition cls_match :: "flags \<Rightarrow> citem list \<Rightarrow> char \<Rightarrow> bool" where
  "cls_match fl its c = list_ex (\<lambda>it. citem_match fl it c) its"

definition ncls_match :: "flags \<Rightarrow> citem list \<Rightarrow> char \<Rightarrow> bool" where
  "ncls_match fl its c = (\<not> cls_match fl its c)"

text \<open>\<open>.\<close> matches every character, except a newline unless \<open>DOTALL\<close> is set.\<close>

definition dot_match :: "flags \<Rightarrow> char \<Rightarrow> bool" where
  "dot_match fl c = (dotall fl \<or> c \<noteq> CHR 0x0A)"

definition step_char :: "(char \<Rightarrow> bool) \<Rightarrow> string \<Rightarrow> mstate \<Rightarrow> mstate list" where
  "step_char p s st =
     (case st of (i, caps) \<Rightarrow> if i < length s \<and> p (s ! i) then [(Suc i, caps)] else [])"

definition at_boundary :: "string \<Rightarrow> nat \<Rightarrow> bool" where
  "at_boundary s i =
     ((0 < i \<and> i \<le> length s \<and> isword (s ! (i - 1))) \<noteq> (i < length s \<and> isword (s ! i)))"

text \<open>The \<open>n\<close> compulsory rounds of a repetition.\<close>

primrec rep_min :: "nat \<Rightarrow> (mstate \<Rightarrow> mstate list) \<Rightarrow> mstate list \<Rightarrow> mstate list" where
  "rep_min 0 f sts = sts"
| "rep_min (Suc n) f sts = rep_min n f (concat (map f sts))"

text \<open>
  The further rounds, at most \<open>mx\<close> of them when \<open>mx\<close> is given: one more round is
  tried before stopping, and after a round that consumed nothing no further round is
  tried. A round that goes on consumes a character, so the first argument, which counts
  such rounds down from the length of the text, never runs out.
\<close>

definition rep_next :: "(mstate \<Rightarrow> mstate list) \<Rightarrow> mstate \<Rightarrow> mstate \<Rightarrow> mstate list" where
  "rep_next cont st st' = (if fst st < fst st' then cont st' else [st'])"

primrec rep_opt :: "nat \<Rightarrow> (mstate \<Rightarrow> mstate list) \<Rightarrow> nat option \<Rightarrow> mstate \<Rightarrow> mstate list" where
  "rep_opt 0 f mx st = (if mx = Some 0 then [st] else f st @ [st])"
| "rep_opt (Suc k) f mx st =
     (if mx = Some 0 then [st]
      else concat (map (rep_next (rep_opt k f (map_option (\<lambda>n. n - 1) mx)) st) (f st)) @ [st])"

primrec ms :: "rx \<Rightarrow> nat \<Rightarrow> flags \<Rightarrow> string \<Rightarrow> mstate \<Rightarrow> mstate list" where
  "ms (Lit d) g fl s st = step_char (lit_match fl d) s st"
| "ms Dot g fl s st = step_char (dot_match fl) s st"
| "ms (Cls its) g fl s st = step_char (cls_match fl its) s st"
| "ms (NCls its) g fl s st = step_char (ncls_match fl its) s st"
| "ms (Cat r1 r2) g fl s st = concat (map (ms r2 (g + ngroups r1) fl s) (ms r1 g fl s st))"
| "ms (Alt r1 r2) g fl s st = ms r1 g fl s st @ ms r2 (g + ngroups r1) fl s st"
| "ms (Rep lo hi r) g fl s st =
     concat (map (rep_opt (length s) (ms r g fl s) (map_option (\<lambda>n. n - lo) hi))
                 (rep_min lo (ms r g fl s) [st]))"
| "ms (Grp r) g fl s st =
     map (\<lambda>st'. (fst st', (g, fst st, fst st') # snd st')) (ms r (Suc g) fl s st)"
| "ms WordB g fl s st = (if at_boundary s (fst st) then [st] else [])"
| "ms Eps g fl s st = [st]"

text \<open>
  A match object: where the match starts and ends, and the group spans.
  \<open>group m s 0\<close> is the matched text, \<open>group m s n\<close> the text of group \<open>n\<close>, or \<open>None\<close>
  if that group took no part in the match.
\<close>

record rmatch =
  m_start :: nat
  m_end :: nat
  m_caps :: "(nat \<times> nat \<times> nat) list"

definition substr :: "string \<Rightarrow> nat \<Rightarrow> nat \<Rightarrow> string" where
  "substr s i j = take (j - i) (drop i s)"

definition group :: "rmatch \<Rightarrow> string \<Rightarrow> nat \<Rightarrow> string option" where
  "group m s n =
     (if n = 0 then Some (substr s (m_start m) (m_end m))
      else map_option (\<lambda>(i, j). substr s i j) (map_of (m_caps m) n))"

text \<open>
  \<open>re.search\<close>: the first position, from the left, at which the pattern matches, with
  the first way the matcher finds there.
\<close>

fun scan :: "rx \<Rightarrow> flags \<Rightarrow> string \<Rightarrow> nat list \<Rightarrow> rmatch option" where
  "scan r fl s [] = None"
| "scan r fl s (i # is) =
     (case ms r 1 fl s (i, []) of
        [] \<Rightarrow> scan r fl s is
      | st # sts \<Rightarrow> Some \<lparr>m_start = i, m_end = fst st, m_caps = snd st\<rparr>)"

definition re_search :: "rx \<Rightarrow> flags \<Rightarrow> string \<Rightarrow> rmatch option" where
  "re_search r fl s = scan r fl s [0 ..< Suc (length s)]"

text \<open>
  \<open>re.findall\<close>: the matches from left to right, each search starting where the previous
  match ended; after an empty match the next one at the same place has to be non-empty.
  \<open>nxt\<close> is where the next search may start. An item of the result is the matched text
  when the pattern has no group, the text of the group when it has one (empty if the
  group took no part), and the tuple of the groups' texts otherwise.
\<close>

datatype item = IStr string | ITuple "string list"

definition mk_match :: "nat \<Rightarrow> mstate \<Rightarrow> rmatch" where
  "mk_match i st = \<lparr>m_start = i, m_end = fst st, m_caps = snd st\<rparr>"

fun find_matches :: "rx \<Rightarrow> flags \<Rightarrow> string \<Rightarrow> nat list \<Rightarrow> nat \<Rightarrow> rmatch list" where
  "find_matches r fl s [] nxt = []"
| "find_matches r fl s (i # is) nxt =
     (if i < nxt then find_matches r fl s is nxt
      else
        (case ms r 1 fl s (i, []) of
           [] \<Rightarrow> find_matches r fl s is nxt
         | st # sts \<Rightarrow>
             if i < fst st then mk_match i st # find_matches r fl s is (fst st)
             else
               (case filter (\<lambda>st'. i < fst st') sts of
                  [] \<Rightarrow> mk_match i st # find_matches r fl s is i
                | st' # _ \<Rightarrow> mk_match i st # mk_match i st' # find_matches r fl s is (fst st'))))"

definition group_text :: "rmatch \<Rightarrow> string \<Rightarrow> nat \<Rightarrow> string" where
  "group_text m s n = (case group m s n of None \<Rightarrow> [] | Some t \<Rightarrow> t)"

definition match_item :: "rx \<Rightarrow> string \<Rightarrow> rmatch \<Rightarrow> item" where
  "match_item r s m =
     (if ngroups r = 0 then IStr (group_text m s 0)
      else if ngroups r = 1 then IStr (group_text m s 1)
      else ITuple (map (group_text m s) [1 ..< Suc (ngroups r)]))"

definition re_findall :: "rx \<Rightarrow> flags \<Rightarrow> string \<Rightarrow> item list" where
  "re_findall r fl s = map (match_item r s) (find_matches r fl s [0 ..< Suc (length s)] 0)"

section \<open>\<open>searching\<close>\<close>

text \<open>
  \<open>patterns\<close> is \<open>None\<close> or a dict from lower-case labels to lists of patterns. The test
  \<open>patterns and key in patterns\<close> holds exactly when the dict is there and binds the key.
\<close>

type_synonym patterns = "(string \<rightharpoonup> rx list) option"

definition bound_patterns :: "patterns \<Rightarrow> string \<Rightarrow> rx list option" where
  "bound_patterns patterns key = (case patterns of None \<Rightarrow> None | Some d \<Rightarrow> d key)"

datatype pyerror =
    AttributeError
  | ValueError
  | TypeError
  | FileNotFoundError
  | LibraryError string

text \<open>
  What the functions return: a pair (each half a string or \<open>None\<close>), the list of all
  matches, or the chain of hops. A loop over patterns ends by raising, by returning from
  the function, or by running to its end with the matches collected so far.
\<close>

datatype sresult =
    KeyValue "string option" "string option"
  | Matches "item list"
  | Chain "(string \<times> string) list"

datatype 'a outcome = Raised pyerror | Returned 'a | Finished "item list"

text \<open>
  The loop over the custom patterns of a term. \<open>matches[0].strip()\<close> raises
  \<open>AttributeError\<close> when the pattern has several groups and the match is a tuple.
\<close>

fun pattern_loop ::
  "string \<Rightarrow> string \<Rightarrow> bool \<Rightarrow> rx list \<Rightarrow> item list \<Rightarrow> (string \<times> string) outcome" where
  "pattern_loop search_term text return_all [] results = Finished results"
| "pattern_loop search_term text return_all (regex # regex_list) results =
     (case re_findall regex flags_IS text of
        [] \<Rightarrow> pattern_loop search_term text return_all regex_list results
      | m # matches \<Rightarrow>
          if return_all
          then pattern_loop search_term text return_all regex_list (results @ m # matches)
          else (case m of
                  IStr v \<Rightarrow> Returned (search_term, strip v)
                | ITuple vs \<Rightarrow> Raised AttributeError))"

definition sep_chars :: rx where
  "sep_chars = Star (Cls [CSpace, CChar CHR '':'', CChar CHR ''='', CChar CHR ''-''])"

definition number_regex :: rx where
  "number_regex =
     Seq [Opt (Cls [CChar CHR ''-'', CChar CHR ''+'']),
          Rep 1 (Some 3) (Cls [CDigit]),
          Star (Seq [Cls [CChar CHR ''.'', CChar CHR '',''], Rep 3 (Some 3) (Cls [CDigit])]),
          Opt (Seq [Cls [CChar CHR ''.'', CChar CHR '',''], Plus (Cls [CDigit])])]"

definition alnum_regex :: rx where
  "alnum_regex =
     Seq [WordB,
          Grp (Plus (Cls [CRange CHR ''A'' CHR ''Z'', CRange CHR ''a'' CHR ''z'',
                          CRange CHR ''0'' CHR ''9''])),
          WordB]"

definition word_regex :: rx where
  "word_regex = Grp (Plus (Cls [CRange CHR ''a'' CHR ''z'', CRange CHR ''A'' CHR ''Z'']))"

text \<open>The loop over the three value patterns: the first that matches gives the value.\<close>

fun first_value :: "rx list \<Rightarrow> string \<Rightarrow> string option" where
  "first_value [] snippet = None"
| "first_value (regex # rest) snippet =
     (case re_search regex no_flags snippet of
        Some m \<Rightarrow> Some (group_text m snippet 0)
      | None \<Rightarrow> first_value rest snippet)"

text \<open>The second half of \<open>searching\<close>, from the search for the term itself on.\<close>

definition proximity :: "string \<Rightarrow> string \<Rightarrow> sresult" where
  "proximity search_term text =
     (case re_search (re_escape search_term) flags_I text of
        None \<Rightarrow> KeyValue None None
      | Some first_match \<Rightarrow>
          let found = group_text first_match text 0;
              pattern = Seq [re_escape found, sep_chars, Grp (Rep 0 (Some 100) Dot)]
          in case re_search pattern flags_IS text of
               None \<Rightarrow> KeyValue (Some found) None
             | Some after_term \<Rightarrow>
                 (case first_value [number_regex, alnum_regex, word_regex]
                         (group_text after_term text 1) of
                    Some v \<Rightarrow> KeyValue (Some found) (Some v)
                  | None \<Rightarrow> KeyValue (Some found) None))"

definition searching :: "string \<Rightarrow> string \<Rightarrow> patterns \<Rightarrow> bool \<Rightarrow> pyerror + sresult" where
  "searching search_term text patterns return_all =
     (case bound_patterns patterns (lower search_term) of
        None \<Rightarrow> Inr (proximity search_term text)
      | Some regex_list \<Rightarrow>
          (case pattern_loop search_term text return_all regex_list [] of
             Raised e \<Rightarrow> Inl e
           | Returned kv \<Rightarrow> Inr (KeyValue (Some (fst kv)) (Some (snd kv)))
           | Finished results \<Rightarrow>
               if results \<noteq> [] then Inr (Matches results)
               else Inr (proximity search_term text)))"

text \<open>
  An example of custom patterns: the generic pattern \<open>(?i)nit[:\s-]*(\S+)\<close> that the
  program builds for a term \<open>nit\<close> given in a plain list (\<open>normalize_keywords\<close>).
\<close>

definition nit_patterns :: patterns where
  "nit_patterns =
     Some [''nit'' \<mapsto>
             [Seq [re_escape ''nit'', Star (Cls [CChar CHR '':'', CSpace, CChar CHR ''-'']),
                   Grp (Plus (NCls [CSpace]))]]]"

section \<open>\<open>chained_search\<close>\<close>

text \<open>
  Python's truth value of a string or \<open>None\<close>: \<open>None\<close> and the empty string are false.
\<close>

definition truthy :: "string option \<Rightarrow> bool" where
  "truthy v = (case v of None \<Rightarrow> False | Some s \<Rightarrow> s \<noteq> [])"

text \<open>
  The \<open>for\<close> loop, with the rounds still to run. \<open>term, value = searching(...)\<close> needs a
  pair; \<open>searching\<close> with \<open>return_all=False\<close> returns nothing else, and a list in its
  place is modelled as the \<open>ValueError\<close> of a failed unpacking.
\<close>

fun chained_loop ::
  "nat \<Rightarrow> string \<Rightarrow> patterns \<Rightarrow> string \<Rightarrow> string option \<Rightarrow> (string \<times> string) list
     \<Rightarrow> pyerror + (string option \<times> (string \<times> string) list)" where
  "chained_loop 0 text patterns current_term current_value chain = Inr (current_value, chain)"
| "chained_loop (Suc k) text patterns current_term current_value chain =
     (case searching current_term text patterns False of
        Inl e \<Rightarrow> Inl e
      | Inr (KeyValue term val) \<Rightarrow>
          if \<not> truthy term \<or> \<not> truthy val then Inr (current_value, chain)
          else chained_loop k text patterns (the val) val (chain @ [(the term, the val)])
      | Inr other \<Rightarrow> Inl ValueError)"

definition chained_search ::
  "string \<Rightarrow> string \<Rightarrow> int \<Rightarrow> bool \<Rightarrow> patterns \<Rightarrow> pyerror + sresult" where
  "chained_search initial_term text n dev patterns =
     (if n = 0 then searching initial_term text patterns False
      else
        (case chained_loop (nat n) text patterns initial_term None [] of
           Inl e \<Rightarrow> Inl e
         | Inr (current_value, chain) \<Rightarrow>
             if dev then Inr (Chain chain)
             else if truthy current_value then Inr (KeyValue (Some initial_term) current_value)
             else Inr (KeyValue None None)))"

text \<open>
  The specification of the chain: up to \<open>k\<close> hops, each searching for the value the
  previous one resolved, ending at the first search that gives no key or no value
  (\<open>None\<close> or an empty string).
\<close>

fun hops :: "nat \<Rightarrow> (string \<Rightarrow> pyerror + sresult) \<Rightarrow> string \<Rightarrow> pyerror + (string \<times> string) list" where
  "hops 0 search t = Inr []"
| "hops (Suc k) search t =
     (case search t of
        Inl e \<Rightarrow> Inl e
      | Inr (KeyValue (Some key) (Some v)) \<Rightarrow>
          if key = [] \<or> v = [] then Inr []
          else (case hops k search v of Inl e \<Rightarrow> Inl e | Inr chain \<Rightarrow> Inr ((key, v) # chain))
      | Inr other \<Rightarrow> Inr [])"

text \<open>A text contains a term, upper and lower case taken as equal, at some position.\<close>

definition occurs_in :: "string \<Rightarrow> string \<Rightarrow> bool" where
  "occurs_in t text =
     list_ex (\<lambda>i. lower (take (length t) (drop i text)) = lower t) [0 ..< Suc (length text)]"

section \<open>\<open>serial_number\<close>\<close>

text \<open>
  The function assigns \<open>serial_words\<close> twice. The first list is never read: the second
  assignment replaces it before the loop over the labels.
\<close>

definition serial_words_first :: "string list" where
  "serial_words_first =
     [''n'' @ CHR 0xFA # ''mero de serie'', ''n'' @ CHR 0xBA # '' de serie'', ''no. de serie'',
      ''num. de serie'',
      ''serie'', ''serial'', ''serial number'', ''id'', ''c'' @ CHR 0xF3 # ''digo'',
      ''c'' @ CHR 0xF3 # ''digo '' @ CHR 0xFA # ''nico'',
      ''clave'', ''clave '' @ CHR 0xFA # ''nica'', ''referencia'',
      ''referencia '' @ CHR 0xFA # ''nica'', ''folio'',
      ''n'' @ CHR 0xFA # ''mero de folio'', ''comprobante'',
      ''n'' @ CHR 0xFA # ''mero de comprobante'',
      ''ticket'', ''n'' @ CHR 0xFA # ''mero de ticket'', ''factura'',
      ''n'' @ CHR 0xFA # ''mero de factura'',
      ''recibo'', ''n'' @ CHR 0xFA # ''mero de recibo'', ''orden'',
      ''n'' @ CHR 0xFA # ''mero de orden'',
      ''pedido'', ''n'' @ CHR 0xFA # ''mero de pedido'', ''documento'',
      ''n'' @ CHR 0xFA # ''mero de documento'',
      ''contrato'', ''n'' @ CHR 0xFA # ''mero de contrato'', ''expediente'', ''registro'',
      ''n'' @ CHR 0xFA # ''mero de registro'', ''id '' @ CHR 0xFA # ''nico'',
      ''identificaci'' @ CHR 0xF3 # ''n'', ''identificador'',
      ''s/n'', ''sn'', ''unique id'', ''unique code'',
      ''reference'', ''reference number'', ''ref'',
      ''folio number'', ''voucher'', ''voucher number'',
      ''ticket number'', ''invoice'', ''invoice number'',
      ''receipt'', ''receipt number'', ''order'', ''order number'',
      ''purchase order'', ''po number'', ''document number'',
      ''contract number'', ''file'', ''file number'',
      ''record'', ''registration number'', ''unique identifier'']"







section \<open>Tables and \<open>comparing_tables\<close>\<close>

text \<open>
  A cell of a table is a string or the missing value NaN. A DataFrame has column labels
  (given by the text \<open>str()\<close> makes of them) and rows of cells. A table of the list is a
  Camelot \<open>Table\<close>, which has its DataFrame in the attribute \<open>df\<close>, a DataFrame (what
  Tabula returns), or another object on which the normalisation raises, given by its
  \<open>repr\<close>.
\<close>

datatype cell = CStr string | CNaN

record frame =
  columns :: "string list"
  rows :: "cell list list"

datatype table = CamelotTable frame | DataFrame frame | OtherObject string

text \<open>\<open>re.sub(r'\s+', ' ', x)\<close>: every run of whitespace becomes one space.\<close>

fun collapse :: "bool \<Rightarrow> string \<Rightarrow> string" where
  "collapse in_run [] = []"
| "collapse in_run (c # cs) =
     (if isspace c then (if in_run then collapse True cs else CHR '' '' # collapse True cs)
      else c # collapse False cs)"

definition normalize_cell :: "cell \<Rightarrow> string" where
  "normalize_cell x =
     (let filled = (case x of CNaN \<Rightarrow> [] | CStr s \<Rightarrow> s)
      in lower (strip (collapse False filled)))"

text \<open>
  \<open>_normalize_dataframe_for_signature\<close> and the signature built from its result: the
  labels stripped and in lower case, and the normalized cells of the first 8 rows.
\<close>

definition normalize_dataframe_for_signature :: "frame \<Rightarrow> frame" where
  "normalize_dataframe_for_signature df =
     \<lparr>columns = columns df,
      rows = take 8 (map (map (\<lambda>x. CStr (normalize_cell x))) (rows df))\<rparr>"

definition cell_text :: "cell \<Rightarrow> string" where
  "cell_text x = (case x of CNaN \<Rightarrow> ''nan'' | CStr s \<Rightarrow> s)"

definition signature :: "frame \<Rightarrow> string list \<times> string list list" where
  "signature df =
     (let df_norm = normalize_dataframe_for_signature df
      in (map (\<lambda>c. lower (strip c)) (columns df_norm), map (map cell_text) (rows df_norm)))"

text \<open>
  The value that is hashed: the signature, or the table itself when the signature could
  not be built. The function \<open>md5\<close> below stands for
  \<open>hashlib.md5(repr(x).encode('utf-8')).hexdigest()\<close>; nothing is assumed of it.
\<close>

datatype hashed = Signature "string list \<times> string list list" | Repr table

definition sig_hash :: "(hashed \<Rightarrow> 'h) \<Rightarrow> table \<Rightarrow> 'h" where
  "sig_hash md5 t =
     (case t of
        CamelotTable df \<Rightarrow> md5 (Signature (signature df))
      | DataFrame df \<Rightarrow> md5 (Signature (signature df))
      | OtherObject r \<Rightarrow> md5 (Repr t))"

fun comparing_loop :: "(hashed \<Rightarrow> 'h) \<Rightarrow> table list \<Rightarrow> table list \<Rightarrow> 'h set \<Rightarrow> table list" where
  "comparing_loop md5 [] unique_tables seen_signatures = unique_tables"
| "comparing_loop md5 (t # tables_list) unique_tables seen_signatures =
     (if sig_hash md5 t \<notin> seen_signatures
      then comparing_loop md5 tables_list (unique_tables @ [t])
             (insert (sig_hash md5 t) seen_signatures)
      else comparing_loop md5 tables_list unique_tables seen_signatures)"

text \<open>The argument is \<open>None\<close> or a list; \<open>not tables_list\<close> holds for \<open>None\<close> and \<open>[]\<close>.\<close>

definition comparing_tables :: "(hashed \<Rightarrow> 'h) \<Rightarrow> table list option \<Rightarrow> table list" where
  "comparing_tables md5 tables_list =
     (case tables_list of
        None \<Rightarrow> []
      | Some ts \<Rightarrow> if ts = [] then [] else comparing_loop md5 ts [] {})"

definition the_list :: "table list option \<Rightarrow> table list" where
  "the_list tables_list = (case tables_list of None \<Rightarrow> [] | Some ts \<Rightarrow> ts)"

text \<open>
  The positions of a list at which a signature is seen for the first time, and an example:
  three tables of which the second differs from the first in case and spacing only.
\<close>

definition first_seen :: "(hashed \<Rightarrow> 'h) \<Rightarrow> table list \<Rightarrow> nat list" where
  "first_seen md5 ts =
     filter (\<lambda>i. sig_hash md5 (ts ! i) \<notin> sig_hash md5 ` set (take i ts)) [0 ..< length ts]"

definition example_tables :: "table list" where
  "example_tables =
     [CamelotTable \<lparr>columns = [''Item'', ''Total''], rows = [[CStr ''pen'', CStr ''4.50'']]\<rparr>,
      DataFrame \<lparr>columns = [''item '', ''TOTAL''], rows = [[CStr ''Pen'', CStr '' 4.50'']]\<rparr>,
      DataFrame \<lparr>columns = [''item'', ''total''], rows = [[CStr ''ink'', CNaN]]\<rparr>]"

section \<open>Properties of \<open>normalize_number\<close>\<close>

lemma replace_char_delete: "replace_char c [] s = filter (\<lambda>x. x \<noteq> c) s"
  by (induction s) (simp_all add: replace_char_def)

lemma replace_char_single: "replace_char c [d] s = map (\<lambda>x. if x = c then d else x) s"
  by (induction s) (simp_all add: replace_char_def)

lemma normalize_number_string:
  assumes "normalize_number s = Str t"
  shows "t = (if CHR '','' \<in> set s \<and> CHR ''.'' \<in> set s
              then filter (\<lambda>c. c \<noteq> CHR '' '' \<and> c \<noteq> CHR '','') s
              else map (\<lambda>c. if c = CHR '','' then CHR ''.'' else c)
                       (filter (\<lambda>c. c \<noteq> CHR '' '') s))"
proof -
  have "map (\<lambda>c. if c = CHR '','' then CHR ''.'' else c) (filter (\<lambda>c. c \<noteq> CHR '' '') s)
          = filter (\<lambda>c. c \<noteq> CHR '' '') s" if "CHR '','' \<notin> set s"
    using that by (induction s) auto
  then show ?thesis
    using assms
    by (auto simp: normalize_number_def Let_def replace_char_delete replace_char_single
             split: option.splits if_splits)
qed

lemma normalize_number_unchanged:
  assumes "CHR '' '' \<notin> set s" and "CHR '','' \<notin> set s" and "py_float s = None"
  shows "normalize_number s = Str s"
proof -
  have "filter (\<lambda>x. x \<noteq> CHR '' '') s = s"
    using assms(1) by (induction s) auto
  then show ?thesis
    using assms by (simp add: normalize_number_def Let_def replace_char_delete)
qed

text \<open>
  Claim C1, as the code has it. \<open>normalize_number\<close> on \<open>"1,234.56"\<close> returns the
  float 1234.56 (the double nearest to that decimal). On \<open>"1.234,56"\<close>, where both a
  comma and a point occur, the commas are dropped and the result is the float 1.23456.
  Whenever the function returns a string, it is the string it tried to convert: the
  input without its spaces, with its commas dropped if a point also occurs and turned
  into points otherwise; so \<open>"n / a"\<close> comes back as \<open>"n/a"\<close>, and a string without
  spaces and commas that \<open>float\<close> rejects, such as \<open>"abc"\<close>, comes back unchanged.
\<close>

theorem normalize_number_examples:
  "normalize_number ''1.234,56'' = Float (round_double (123456 / 100000))
   \<and> normalize_number ''1,234.56'' = Float (round_double (123456 / 100))
   \<and> normalize_number ''abc'' = Str ''abc''
   \<and> normalize_number ''n / a'' = Str ''n/a''
   \<and> (normalize_number s = Str t \<longrightarrow>
        t = (if CHR '','' \<in> set s \<and> CHR ''.'' \<in> set s
             then filter (\<lambda>c. c \<noteq> CHR '' '' \<and> c \<noteq> CHR '','') s
             else map (\<lambda>c. if c = CHR '','' then CHR ''.'' else c)
                      (filter (\<lambda>c. c \<noteq> CHR '' '') s)))
   \<and> (CHR '' '' \<notin> set s \<and> CHR '','' \<notin> set s \<and> py_float s = None \<longrightarrow>
        normalize_number s = Str s)"
proof -
  have 1: "normalize_number ''1.234,56'' = Float (round_double (123456 / 100000))"
    by code_simp
  have 2: "normalize_number ''1,234.56'' = Float (round_double (123456 / 100))"
    by code_simp
  have 3: "normalize_number ''abc'' = Str ''abc''"
    by code_simp
  have 4: "normalize_number ''n / a'' = Str ''n/a''"
    by code_simp
  from 1 2 3 4 normalize_number_string[of s t] normalize_number_unchanged[of s]
  show ?thesis by blast
qed

theorem normalize_number_examples_witness:
  "normalize_number ''abc'' = Str ''abc''
   \<and> CHR '' '' \<notin> set ''abc'' \<and> CHR '','' \<notin> set ''abc'' \<and> py_float ''abc'' = None
   \<and> ''abc'' = map (\<lambda>c. if c = CHR '','' then CHR ''.'' else c)
                     (filter (\<lambda>c. c \<noteq> CHR '' '') ''abc'')"
proof -
  have f: "py_float ''abc'' = None" by code_simp
  from normalize_number_examples[of "''abc''" "''abc''"] f show ?thesis by simp
qed

text \<open>
  The claim as the specification states it fails: \<open>"1.234,56"\<close> does not give the
  float 1234.56.
\<close>

theorem normalize_number_european_counterexample:
  "normalize_number ''1.234,56'' \<noteq> Float (round_double (123456 / 100))"
  by code_simp

section \<open>Properties of \<open>final_dict\<close>\<close>

lemma final_dict_step_summed:
  "fst (foldl final_dict_step (sm, sv) rs) k =
     (case numbers_of k rs of
        [] \<Rightarrow> sm k
      | x # xs \<Rightarrow> Some (foldl fadd (case sm k of None \<Rightarrow> Finite 0 | Some t \<Rightarrow> t) (x # xs)))"
proof (induction rs arbitrary: sm sv)
  case Nil
  show ?case by (simp add: numbers_of_def)
next
  case (Cons r rs)
  obtain sm' sv' where step: "final_dict_step (sm, sv) r = (sm', sv')"
    by (cases "final_dict_step (sm, sv) r")
  have IH: "fst (foldl final_dict_step (sm', sv') rs) k =
     (case numbers_of k rs of
        [] \<Rightarrow> sm' k
      | x # xs \<Rightarrow> Some (foldl fadd (case sm' k of None \<Rightarrow> Finite 0 | Some t \<Rightarrow> t) (x # xs)))"
    by (rule Cons.IH)
  show ?case
  proof (cases "contributes k r")
    case False
    then have "sm' k = sm k"
      using step
      by (auto simp: final_dict_step_def contributes_def Let_def split: if_splits normalized.splits)
    moreover have "numbers_of k (r # rs) = numbers_of k rs"
      using False by (simp add: numbers_of_def)
    ultimately show ?thesis using IH step by (simp split: list.splits)
  next
    case True
    show ?thesis
    proof (cases "normalize_number (py_str (dict_get r ''Value''))")
      case (Float x)
      have sm': "sm' k = Some (fadd (case sm k of None \<Rightarrow> Finite 0 | Some t \<Rightarrow> t) x)"
        using True Float step by (auto simp: final_dict_step_def contributes_def Let_def)
      have "numbers_of k (r # rs) = x # numbers_of k rs"
        using True Float by (simp add: numbers_of_def)
      then show ?thesis using IH step sm' by (simp split: list.splits)
    next
      case (Str s)
      have sm': "sm' k = sm k"
        using True Str step by (auto simp: final_dict_step_def contributes_def Let_def)
      have "numbers_of k (r # rs) = numbers_of k rs"
        using True Str by (simp add: numbers_of_def)
      then show ?thesis using IH step sm' by (simp split: list.splits)
    qed
  qed
qed

lemma final_dict_step_collected:
  "snd (foldl final_dict_step (sm, sv) rs) k =
     (case texts_of k rs of
        [] \<Rightarrow> sv k
      | x # xs \<Rightarrow> Some (set (x # xs) \<union> (case sv k of None \<Rightarrow> {} | Some S \<Rightarrow> S)))"
proof (induction rs arbitrary: sm sv)
  case Nil
  show ?case by (simp add: texts_of_def)
next
  case (Cons r rs)
  obtain sm' sv' where step: "final_dict_step (sm, sv) r = (sm', sv')"
    by (cases "final_dict_step (sm, sv) r")
  have IH: "snd (foldl final_dict_step (sm', sv') rs) k =
     (case texts_of k rs of
        [] \<Rightarrow> sv' k
      | x # xs \<Rightarrow> Some (set (x # xs) \<union> (case sv' k of None \<Rightarrow> {} | Some S \<Rightarrow> S)))"
    by (rule Cons.IH)
  show ?case
  proof (cases "contributes k r")
    case False
    then have "sv' k = sv k"
      using step
      by (auto simp: final_dict_step_def contributes_def Let_def split: if_splits normalized.splits)
    moreover have "texts_of k (r # rs) = texts_of k rs"
      using False by (simp add: texts_of_def)
    ultimately show ?thesis using IH step by (simp split: list.splits)
  next
    case True
    show ?thesis
    proof (cases "normalize_number (py_str (dict_get r ''Value''))")
      case (Float x)
      have sv': "sv' k = sv k"
        using True Float step by (auto simp: final_dict_step_def contributes_def Let_def)
      have "texts_of k (r # rs) = texts_of k rs"
        using True Float by (simp add: texts_of_def)
      then show ?thesis using IH step sv' by (simp split: list.splits)
    next
      case (Str s)
      have sv': "sv' k = Some (insert s (case sv k of None \<Rightarrow> {} | Some S \<Rightarrow> S))"
        using True Str step by (auto simp: final_dict_step_def contributes_def Let_def)
      have "texts_of k (r # rs) = s # texts_of k rs"
        using True Str by (simp add: texts_of_def)
      then show ?thesis using IH step sv' by (auto split: list.splits)
    qed
  qed
qed

lemma final_dict_step_skip:
  "dict_get r ''Key'' = PyNone \<or> dict_get r ''Value'' = PyNone \<Longrightarrow> final_dict_step acc r = acc"
  by (cases acc) (simp add: final_dict_step_def Let_def)

lemma final_dict_skips:
  "foldl final_dict_step acc rs =
   foldl final_dict_step acc
     (filter (\<lambda>r. dict_get r ''Key'' \<noteq> PyNone \<and> dict_get r ''Value'' \<noteq> PyNone) rs)"
  by (induction rs arbitrary: acc) (auto simp: final_dict_step_skip)

text \<open>
  Claim C7. For every result list and key, the summed map holds the left-to-right float
  sum, from 0.0, of the numeric normalized values recorded under the key (and no entry
  when there is none), the strings map holds the set of the other normalized values, and
  the results whose Key or Value is missing or \<open>None\<close> change nothing. On the three
  results of the specification the sum of \<open>total\<close> is 150.5 and its strings are
  \<open>{"n/a"}\<close>.
\<close>

theorem final_dict_aggregates:
  "fst (final_dict rs) k =
     (if numbers_of k rs = [] then None else Some (foldl fadd (Finite 0) (numbers_of k rs)))
   \<and> snd (final_dict rs) k =
     (if texts_of k rs = [] then None else Some (set (texts_of k rs)))
   \<and> final_dict rs =
       final_dict (filter (\<lambda>r. dict_get r ''Key'' \<noteq> PyNone \<and> dict_get r ''Value'' \<noteq> PyNone) rs)
   \<and> fst (final_dict example_results) (PyStr ''total'') = Some (Finite (301 / 2))
   \<and> snd (final_dict example_results) (PyStr ''total'') = Some {''n/a''}"
proof -
  have 1: "fst (final_dict rs) k =
     (if numbers_of k rs = [] then None else Some (foldl fadd (Finite 0) (numbers_of k rs)))"
    unfolding final_dict_def by (simp add: final_dict_step_summed split: list.splits)
  have 2: "snd (final_dict rs) k =
     (if texts_of k rs = [] then None else Some (set (texts_of k rs)))"
    unfolding final_dict_def by (simp add: final_dict_step_collected split: list.splits)
  have 3: "final_dict rs =
       final_dict (filter (\<lambda>r. dict_get r ''Key'' \<noteq> PyNone \<and> dict_get r ''Value'' \<noteq> PyNone) rs)"
    unfolding final_dict_def by (rule final_dict_skips)
  have 4: "fst (final_dict example_results) (PyStr ''total'') = Some (Finite (301 / 2))"
    by code_simp
  have 5: "snd (final_dict example_results) (PyStr ''total'') = Some {''n/a''}"
    by code_simp
  from 1 2 3 4 5 show ?thesis by blast
qed

section \<open>Properties of \<open>searching\<close>\<close>

lemma ms_literal:
  "st' \<in> set (ms (Seq (map Lit t)) g fl s st) \<Longrightarrow>
     fst st' = fst st + length t \<and>
     list_all2 (lit_match fl) t (take (length t) (drop (fst st) s))"
proof (induction t arbitrary: st g)
  case Nil
  then show ?case by (simp add: Seq_def)
next
  case (Cons d t)
  from Cons.prems obtain st1 where
    1: "st1 \<in> set (ms (Lit d) g fl s st)" and 2: "st' \<in> set (ms (Seq (map Lit t)) (g + 0) fl s st1)"
    by (auto simp: Seq_def)
  from 1 have a: "fst st < length s" "lit_match fl d (s ! fst st)" "fst st1 = Suc (fst st)"
    by (auto simp: step_char_def split: prod.splits if_splits)
  from Cons.IH[where st=st1 and g="g + 0"] 2 have b: "fst st' = fst st1 + length t"
    "list_all2 (lit_match fl) t (take (length t) (drop (fst st1) s))"
    by auto
  have "drop (fst st) s = s ! fst st # drop (Suc (fst st)) s"
    using a(1) by (simp add: Cons_nth_drop_Suc)
  then show ?case using a b by simp
qed

lemma lit_match_lower:
  "list_all2 (lit_match flags_I) t u \<Longrightarrow> lower u = lower t"
  by (induction t u rule: list_all2_induct) (auto simp: lit_match_def flags_I_def lower_def)

lemma scan_Some:
  "scan r fl s is = Some m \<Longrightarrow> m_start m \<in> set is \<and> ms r 1 fl s (m_start m, []) \<noteq> []"
  by (induction "is") (auto split: list.splits)

lemma re_search_literal_occurs:
  assumes "re_search (re_escape t) flags_I text = Some m"
  shows "occurs_in t text"
proof -
  from assms have i: "m_start m \<in> set [0 ..< Suc (length text)]"
    and ne: "ms (re_escape t) 1 flags_I text (m_start m, []) \<noteq> []"
    using scan_Some unfolding re_search_def by blast+
  from ne obtain st' where "st' \<in> set (ms (Seq (map Lit t)) 1 flags_I text (m_start m, []))"
    unfolding re_escape_def by (cases "ms (Seq (map Lit t)) 1 flags_I text (m_start m, [])") auto
  then have "list_all2 (lit_match flags_I) t (take (length t) (drop (m_start m) text))"
    using ms_literal by fastforce
  then have "lower (take (length t) (drop (m_start m) text)) = lower t"
    by (rule lit_match_lower)
  with i show ?thesis
    unfolding occurs_in_def list_ex_iff by blast
qed

lemma occurs_in_iff:
  "occurs_in t text \<longleftrightarrow> (\<exists>ps u ss. text = ps @ u @ ss \<and> lower u = lower t)"
proof
  assume "occurs_in t text"
  then obtain i where "lower (take (length t) (drop i text)) = lower t"
    unfolding occurs_in_def list_ex_iff by blast
  moreover have "text = take i text @ take (length t) (drop i text) @ drop (length t) (drop i text)"
    by (metis append_take_drop_id)
  ultimately show "\<exists>ps u ss. text = ps @ u @ ss \<and> lower u = lower t" by blast
next
  assume "\<exists>ps u ss. text = ps @ u @ ss \<and> lower u = lower t"
  then obtain ps u ss where tx: "text = ps @ u @ ss" and lw: "lower u = lower t" by blast
  from lw have len: "length u = length t"
    unfolding lower_def by (metis length_map)
  have "take (length t) (drop (length ps) text) = u"
    using tx len by simp
  moreover have "length ps \<in> set [0 ..< Suc (length text)]"
    using tx by simp
  ultimately show "occurs_in t text"
    unfolding occurs_in_def list_ex_iff using lw by blast
qed

lemma proximity_not_found:
  "\<not> occurs_in t text \<Longrightarrow> proximity t text = KeyValue None None"
  using re_search_literal_occurs[of t "text"]
  by (cases "re_search (re_escape t) flags_I text") (auto simp: proximity_def)

text \<open>
  Claim C5. If the term occurs nowhere in the text, upper and lower case taken as equal
  (\<open>occurs_in\<close>, see \<open>occurs_in_iff\<close>), then \<open>searching(term, text)\<close>, called without
  patterns, returns \<open>(None, None)\<close>.
\<close>

theorem searching_no_occurrence:
  "\<not> occurs_in search_term text \<Longrightarrow>
     searching search_term text None return_all = Inr (KeyValue None None)"
  by (simp add: searching_def bound_patterns_def proximity_not_found)

theorem searching_no_occurrence_witness:
  "\<not> occurs_in ''total'' ''Subtotl: 45.99'' \<and>
   searching ''total'' ''Subtotl: 45.99'' None False = Inr (KeyValue None None)"
proof -
  have h: "\<not> occurs_in ''total'' ''Subtotl: 45.99''" by code_simp
  from searching_no_occurrence[OF h, of False] h show ?thesis by simp
qed

lemma pattern_loop_all:
  "pattern_loop t text True rs results =
     Finished (results @ concat (map (\<lambda>r. re_findall r flags_IS text) rs))"
  by (induction rs arbitrary: results) (auto split: list.splits)

lemma proximity_is_pair: "\<exists>k v. proximity t text = KeyValue k v"
  by (auto simp: proximity_def Let_def split: option.splits)

text \<open>
  Claim C10. When \<open>searching\<close> is called with \<open>return_all\<close> and the term, in lower
  case, has custom patterns, it returns the list of the matches of all these patterns, in
  their order, if there is at least one match; if no pattern matches it goes on to the
  search for the term itself, which returns a pair.
\<close>

theorem searching_return_all:
  "bound_patterns patterns (lower t) = Some regex_list \<Longrightarrow>
     searching t text patterns True =
       (if concat (map (\<lambda>r. re_findall r flags_IS text) regex_list) \<noteq> []
        then Inr (Matches (concat (map (\<lambda>r. re_findall r flags_IS text) regex_list)))
        else Inr (proximity t text))
     \<and> (\<exists>k v. proximity t text = KeyValue k v)"
  using proximity_is_pair[of t "text"]
  by (simp add: searching_def pattern_loop_all)

theorem searching_return_all_witness:
  "searching ''NIT'' ''nit  900-123  nit:7'' nit_patterns True =
     Inr (Matches [IStr ''900-123'', IStr ''7''])"
proof -
  let ?rs = "[Seq [re_escape ''nit'', Star (Cls [CChar CHR '':'', CSpace, CChar CHR ''-'']),
                   Grp (Plus (NCls [CSpace]))]]"
  have h: "bound_patterns nit_patterns (lower ''NIT'') = Some ?rs"
    by code_simp
  have e: "concat (map (\<lambda>r. re_findall r flags_IS ''nit  900-123  nit:7'') ?rs) =
             [IStr ''900-123'', IStr ''7'']"
    by code_simp
  from searching_return_all[OF h, of "''nit  900-123  nit:7''"] e show ?thesis by simp
qed

section \<open>Properties of \<open>chained_search\<close>\<close>

lemma pattern_loop_no_list:
  "pattern_loop t text False rs results = Finished out \<Longrightarrow> out = results"
  by (induction rs arbitrary: results) (auto split: list.splits item.splits)

lemma searching_False_not_Matches:
  "searching t text p False \<noteq> Inr (Matches xs)"
  by (auto simp: searching_def proximity_def Let_def
           split: option.splits outcome.splits list.splits dest!: pattern_loop_no_list)

lemma searching_False_not_Chain:
  "searching t text p ra \<noteq> Inr (Chain c)"
  by (auto simp: searching_def proximity_def Let_def
           split: option.splits outcome.splits list.splits)

lemma hops_values:
  "hops k search t = Inr hs \<Longrightarrow> (a, b) \<in> set hs \<Longrightarrow> a \<noteq> [] \<and> b \<noteq> []"
proof (induction k arbitrary: t hs)
  case 0
  then show ?case by simp
next
  case (Suc k)
  then show ?case
    by (auto split: sum.splits sresult.splits option.splits if_splits)
qed

lemma hops_length: "hops k search t = Inr hs \<Longrightarrow> length hs \<le> k"
proof (induction k arbitrary: t hs)
  case 0
  then show ?case by simp
next
  case (Suc k)
  then show ?case
    by (fastforce split: sum.splits sresult.splits option.splits if_splits)
qed

lemma chained_loop_hops:
  "chained_loop k text p cur cv chain =
     (case hops k (\<lambda>t. searching t text p False) cur of
        Inl e \<Rightarrow> Inl e
      | Inr hs \<Rightarrow> Inr (if hs = [] then cv else Some (snd (last hs)), chain @ hs))"
proof (induction k arbitrary: cur cv chain)
  case 0
  show ?case by simp
next
  case (Suc k)
  show ?case
  proof (cases "searching cur text p False")
    case (Inl e)
    then show ?thesis by simp
  next
    case (Inr res)
    show ?thesis
    proof (cases res)
      case (KeyValue tm vl)
      show ?thesis
      proof (cases "truthy tm \<and> truthy vl")
        case False
        then show ?thesis using Inr KeyValue
          by (auto simp: truthy_def split: option.splits)
      next
        case True
        then obtain key v where kv: "tm = Some key" "vl = Some v" "key \<noteq> []" "v \<noteq> []"
          by (auto simp: truthy_def split: option.splits)
        show ?thesis using Inr KeyValue kv True Suc.IH[of v "Some v" "chain @ [(key, v)]"]
          by (auto split: sum.splits)
      qed
    next
      case (Matches xs)
      then show ?thesis using Inr searching_False_not_Matches by blast
    next
      case (Chain c)
      then show ?thesis using Inr searching_False_not_Chain by blast
    qed
  qed
qed

text \<open>
  Claim C3. With a hop bound \<open>n \<ge> 1\<close>, \<open>chained_search\<close> does what \<open>hops\<close>
  describes: at most \<open>n\<close> searches, the first for the initial term and each later one
  for the value resolved before, ending at the first search that gives no key or no
  value (\<open>None\<close> or the empty string, which is what the code's \<open>not\<close> tests). Without
  trace it returns the initial term with the last resolved value if a hop succeeded and
  \<open>(None, None)\<close> otherwise; with trace it returns the chain; an exception raised by a
  search is passed on.
\<close>

theorem chained_search_hops:
  "1 \<le> n \<Longrightarrow>
     chained_search T text n False p =
       (case hops (nat n) (\<lambda>t. searching t text p False) T of
          Inl e \<Rightarrow> Inl e
        | Inr [] \<Rightarrow> Inr (KeyValue None None)
        | Inr (h # hs) \<Rightarrow> Inr (KeyValue (Some T) (Some (snd (last (h # hs))))))
     \<and> chained_search T text n True p =
       (case hops (nat n) (\<lambda>t. searching t text p False) T of
          Inl e \<Rightarrow> Inl e
        | Inr hs \<Rightarrow> Inr (Chain hs))
     \<and> (\<forall>hs. hops (nat n) (\<lambda>t. searching t text p False) T = Inr hs \<longrightarrow> length hs \<le> nat n)"
proof -
  assume n: "1 \<le> n"
  let ?H = "hops (nat n) (\<lambda>t. searching t text p False) T"
  have nz: "n \<noteq> 0" using n by simp
  have 1: "chained_search T text n False p =
       (case ?H of
          Inl e \<Rightarrow> Inl e
        | Inr [] \<Rightarrow> Inr (KeyValue None None)
        | Inr (h # hs) \<Rightarrow> Inr (KeyValue (Some T) (Some (snd (last (h # hs))))))"
  proof (cases ?H)
    case (Inl e)
    then show ?thesis using nz by (simp add: chained_search_def chained_loop_hops)
  next
    case (Inr hs)
    show ?thesis
    proof (cases hs)
      case Nil
      then show ?thesis using nz Inr by (simp add: chained_search_def chained_loop_hops truthy_def)
    next
      case (Cons h hs')
      obtain a b where ab: "last hs = (a, b)" by (cases "last hs")
      have "(a, b) \<in> set hs" using ab Cons by (metis last_in_set list.distinct(1))
      then have "b \<noteq> []" using hops_values[OF Inr] by blast
      then show ?thesis using nz Inr Cons ab
        by (simp add: chained_search_def chained_loop_hops truthy_def)
    qed
  qed
  have 2: "chained_search T text n True p =
       (case ?H of Inl e \<Rightarrow> Inl e | Inr hs \<Rightarrow> Inr (Chain hs))"
    using nz by (simp add: chained_search_def chained_loop_hops split: sum.splits)
  have 3: "\<forall>hs. ?H = Inr hs \<longrightarrow> length hs \<le> nat n"
    using hops_length by blast
  from 1 2 3 show ?thesis by blast
qed

theorem chained_search_hops_witness:
  "(1::int) \<le> 5 \<and>
   chained_search ''a'' ''a: b  c'' 5 False None = Inr (KeyValue (Some ''a'') (Some ''c'')) \<and>
   chained_search ''a'' ''a: b  c'' 5 True None = Inr (Chain [(''a'', ''b''), (''b'', ''c'')])"
proof -
  have h: "(1::int) \<le> 5" by simp
  have e: "hops (nat 5) (\<lambda>t. searching t ''a: b  c'' None False) ''a'' =
             Inr [(''a'', ''b''), (''b'', ''c'')]"
    by code_simp
  from chained_search_hops[OF h, of "''a''" "''a: b  c''" None] e show ?thesis by simp
qed

text \<open>
  Claim C4. With \<open>hops = 0\<close> and trace mode off, \<open>chained_search\<close> returns what the
  single call \<open>searching(T, text, patterns)\<close> returns.
\<close>

theorem chained_search_zero:
  "chained_search T text 0 False patterns = searching T text patterns False"
  by (simp add: chained_search_def)

section \<open>Properties of \<open>serial_number\<close>\<close>






section \<open>Properties of \<open>comparing_tables\<close>\<close>

lemma comparing_loop_append:
  "comparing_loop md5 ts unique seen = unique @ comparing_loop md5 ts [] seen"
proof (induction ts arbitrary: unique seen)
  case Nil
  show ?case by simp
next
  case (Cons t ts)
  show ?case
    using Cons.IH[of "unique @ [t]" "insert (sig_hash md5 t) seen"]
          Cons.IH[of "[t]" "insert (sig_hash md5 t) seen"]
          Cons.IH[of unique seen]
    by simp
qed

lemma comparing_loop_positions:
  "comparing_loop md5 ts [] seen =
     map ((!) ts)
       (filter (\<lambda>i. sig_hash md5 (ts ! i) \<notin> seen \<union> sig_hash md5 ` set (take i ts))
               [0 ..< length ts])"
proof (induction ts arbitrary: seen)
  case Nil
  show ?case by simp
next
  case (Cons t ts)
  let ?h = "sig_hash md5"
  have shift: "map ((!) (t # ts))
       (filter (\<lambda>i. ?h ((t # ts) ! i) \<notin> seen \<union> ?h ` set (take i (t # ts))) (map Suc [0 ..< length ts]))
     = map ((!) ts)
       (filter (\<lambda>i. ?h (ts ! i) \<notin> insert (?h t) seen \<union> ?h ` set (take i ts)) [0 ..< length ts])"
    by (simp add: filter_map comp_def conj_ac)
  have upt: "[0 ..< length (t # ts)] = 0 # map Suc [0 ..< length ts]"
    by (simp add: upt_conv_Cons map_Suc_upt del: upt_Suc)
  show ?case
  proof (cases "?h t \<in> seen")
    case True
    then have "insert (?h t) seen = seen" by blast
    then show ?thesis
      using True Cons.IH[of seen] shift unfolding upt by simp
  next
    case False
    then show ?thesis
      using Cons.IH[of "insert (?h t) seen"] shift
            comparing_loop_append[of md5 ts "[t]" "insert (?h t) seen"]
      unfolding upt by simp
  qed
qed

lemma comparing_loop_distinct:
  "distinct (map (sig_hash md5) (comparing_loop md5 ts [] seen)) \<and>
   sig_hash md5 ` set (comparing_loop md5 ts [] seen) \<inter> seen = {}"
proof (induction ts arbitrary: seen)
  case Nil
  show ?case by simp
next
  case (Cons t ts)
  show ?case
  proof (cases "sig_hash md5 t \<in> seen")
    case True
    then show ?thesis using Cons.IH[of seen] by simp
  next
    case False
    then show ?thesis
      using Cons.IH[of "insert (sig_hash md5 t) seen"]
            comparing_loop_append[of md5 ts "[t]" "insert (sig_hash md5 t) seen"]
      by auto
  qed
qed

lemma comparing_loop_fixed:
  "distinct (map (sig_hash md5) ts) \<Longrightarrow> sig_hash md5 ` set ts \<inter> seen = {} \<Longrightarrow>
     comparing_loop md5 ts [] seen = ts"
proof (induction ts arbitrary: seen)
  case Nil
  show ?case by simp
next
  case (Cons t ts)
  have "comparing_loop md5 ts [] (insert (sig_hash md5 t) seen) = ts"
    using Cons.prems by (intro Cons.IH) auto
  then show ?case
    using Cons.prems comparing_loop_append[of md5 ts "[t]" "insert (sig_hash md5 t) seen"]
    by auto
qed

lemma comparing_loop_subseq: "subseq (comparing_loop md5 ts [] seen) ts"
proof (induction ts arbitrary: seen)
  case Nil
  show ?case by simp
next
  case (Cons t ts)
  show ?case
    using Cons.IH[of seen] Cons.IH[of "insert (sig_hash md5 t) seen"]
          comparing_loop_append[of md5 ts "[t]" "insert (sig_hash md5 t) seen"]
    by auto
qed

text \<open>
  Claim C8. Whatever the hash function, \<open>comparing_tables\<close> applied to its own result
  returns that result; the result holds the tables of the input at the positions where a
  signature hash is seen for the first time, in the order of the input, so it is a
  subsequence of the input made of the original tables, and no two of them have the same
  hash. \<open>None\<close> and the empty list give the empty list.
\<close>

theorem comparing_tables_idempotent:
  "comparing_tables md5 (Some (comparing_tables md5 tables_list)) = comparing_tables md5 tables_list
   \<and> comparing_tables md5 tables_list =
       map ((!) (the_list tables_list)) (first_seen md5 (the_list tables_list))
   \<and> subseq (comparing_tables md5 tables_list) (the_list tables_list)
   \<and> distinct (map (sig_hash md5) (comparing_tables md5 tables_list))"
proof -
  let ?ts = "the_list tables_list"
  have eq: "comparing_tables md5 tables_list = comparing_loop md5 ?ts [] {}"
    by (auto simp: comparing_tables_def the_list_def split: option.splits)
  have d: "distinct (map (sig_hash md5) (comparing_loop md5 ?ts [] {}))"
    using comparing_loop_distinct[of md5 ?ts "{}"] by simp
  have 1: "comparing_tables md5 (Some (comparing_tables md5 tables_list)) =
           comparing_tables md5 tables_list"
    using comparing_loop_fixed[OF d, of "{}"] eq
    by (simp add: comparing_tables_def)
  have 2: "comparing_tables md5 tables_list = map ((!) ?ts) (first_seen md5 ?ts)"
    using comparing_loop_positions[of md5 ?ts "{}"] eq by (simp add: first_seen_def)
  have 3: "subseq (comparing_tables md5 tables_list) ?ts"
    using comparing_loop_subseq[of md5 ?ts "{}"] eq by simp
  from 1 2 3 d eq show ?thesis by simp
qed

theorem comparing_tables_idempotent_witness:
  "comparing_tables (\<lambda>x. x) (Some example_tables) = [example_tables ! 0, example_tables ! 2]
   \<and> comparing_tables (\<lambda>x. x) (Some [example_tables ! 0, example_tables ! 2]) =
       [example_tables ! 0, example_tables ! 2]"
proof -
  have f: "first_seen (\<lambda>x. x) (the_list (Some example_tables)) = [0, 2]"
    by code_simp
  have l: "the_list (Some example_tables) = example_tables"
    by (simp add: the_list_def)
  note t = comparing_tables_idempotent[of "\<lambda>x. x" "Some example_tables"]
  have "comparing_tables (\<lambda>x. x) (Some example_tables) =
          map ((!) (the_list (Some example_tables))) (first_seen (\<lambda>x. x) (the_list (Some example_tables)))"
    using t by blast
  then have a: "comparing_tables (\<lambda>x. x) (Some example_tables) =
                  [example_tables ! 0, example_tables ! 2]"
    using f l by simp
  have b: "comparing_tables (\<lambda>x. x) (Some (comparing_tables (\<lambda>x. x) (Some example_tables))) =
             comparing_tables (\<lambda>x. x) (Some example_tables)"
    using t by blast
  from a b[unfolded a] show ?thesis by blast
qed

end
